theory Spec2Isabelle
  imports Complex_Main "HOL-Library.Word" "HOL-Library.Sublist"
begin

section \<open>The directory-backed authentication client (pkg/utils/ldap/ldap.go)\<close>

text \<open>
  A shallow embedding of the single-endpoint LDAP client: the dialer, the bind strategy
  switch of \<open>Login\<close>, the batched search of \<open>Users\<close> and the entry mapper. Go strings
  are byte strings, so they are \<open>string\<close> (lists of 8-bit \<open>char\<close>) here.
\<close>

subsection \<open>Functions of Go's standard library and of go-ldap that the client calls\<close>

text \<open>\<open>strings.Contains(s, substr)\<close>: some suffix of \<open>s\<close> starts with \<open>substr\<close>.\<close>

fun Contains :: "string \<Rightarrow> string \<Rightarrow> bool" where
  "Contains [] substr = (substr = [])"
| "Contains (c # cs) substr = (prefix substr (c # cs) \<or> Contains cs substr)"

text \<open>
  \<open>strings.ReplaceAll(s, "%s", new)\<close>: the non-overlapping occurrences of the two bytes
  \<open>%s\<close> are replaced from left to right; replaced text is not scanned again. The client
  passes the literal \<open>"%s"\<close> as the old string at every call, so the old string is fixed.
\<close>

fun ReplaceAll_placeholder :: "string \<Rightarrow> string \<Rightarrow> string" where
  "ReplaceAll_placeholder [] new = []"
| "ReplaceAll_placeholder [c] new = [c]"
| "ReplaceAll_placeholder (c # d # cs) new =
     (if c = CHR ''%'' \<and> d = CHR ''s'' then new @ ReplaceAll_placeholder cs new
      else c # ReplaceAll_placeholder (d # cs) new)"

text \<open>
  \<open>goldap.EscapeFilter\<close> (go-ldap, filter.go): every byte for which \<open>mustEscape\<close> holds
  becomes a backslash and the two lower-case hexadecimal digits of the byte; every other
  byte is kept. \<open>mustEscape(c)\<close> is \<open>c > 0x7f || c == '(' || c == ')' || c == '\\' ||
  c == '*' || c == 0\<close>.
\<close>

definition backslash :: char where
  "backslash = CHR 0x5C"

definition hex :: string where
  "hex = ''0123456789abcdef''"

definition mustEscape :: "char \<Rightarrow> bool" where
  "mustEscape c \<longleftrightarrow>
     (of_char c :: nat) > 0x7f \<or> c = CHR ''('' \<or> c = CHR '')'' \<or> c = backslash \<or>
     c = CHR ''*'' \<or> (of_char c :: nat) = 0"

definition escapeByte :: "char \<Rightarrow> string" where
  "escapeByte c =
     (if mustEscape c
      then [backslash, hex ! ((of_char c :: nat) div 16), hex ! ((of_char c :: nat) mod 16)]
      else [c])"

definition EscapeFilter :: "string \<Rightarrow> string" where
  "EscapeFilter s = concat (map escapeByte s)"

text \<open>
  \<open>strings.TrimSpace\<close> removes the leading and trailing white space of a UTF-8 string,
  as \<open>unicode.IsSpace\<close> defines it: the six ASCII characters tab, line feed, vertical tab,
  form feed, carriage return and space, and the code points U+0085, U+00A0, U+1680,
  U+2000 to U+200A, U+2028, U+2029, U+202F, U+205F and U+3000, which are the byte
  sequences below.
\<close>

definition spaceEncodings :: "string list" where
  "spaceEncodings =
     map (\<lambda>c. [c]) [CHR 0x09, CHR 0x0A, CHR 0x0B, CHR 0x0C, CHR 0x0D, CHR 0x20] @
     [[CHR 0xC2, CHR 0x85], [CHR 0xC2, CHR 0xA0], [CHR 0xE1, CHR 0x9A, CHR 0x80]] @
     map (\<lambda>c. [CHR 0xE2, CHR 0x80, c])
       [CHR 0x80, CHR 0x81, CHR 0x82, CHR 0x83, CHR 0x84, CHR 0x85, CHR 0x86, CHR 0x87,
        CHR 0x88, CHR 0x89, CHR 0x8A, CHR 0xA8, CHR 0xA9, CHR 0xAF] @
     [[CHR 0xE2, CHR 0x81, CHR 0x9F], [CHR 0xE3, CHR 0x80, CHR 0x80]]"

text \<open>The number of bytes of the white-space rune a string starts with (0: none).\<close>

definition leadingSpace :: "string \<Rightarrow> nat" where
  "leadingSpace s =
     (case filter (\<lambda>e. prefix e s) spaceEncodings of [] \<Rightarrow> 0 | e # _ \<Rightarrow> length e)"

definition trailingSpace :: "string \<Rightarrow> nat" where
  "trailingSpace s =
     (case filter (\<lambda>e. suffix e s) spaceEncodings of [] \<Rightarrow> 0 | e # _ \<Rightarrow> length e)"

function TrimLeftSpace :: "string \<Rightarrow> string" where
  "TrimLeftSpace s =
     (if leadingSpace s = 0 then s else TrimLeftSpace (drop (leadingSpace s) s))"
  by pat_completeness auto
termination
proof (relation "measure length")
  show "wf (measure length)" by simp
next
  fix s :: string
  assume pos: "leadingSpace s \<noteq> 0"
  have "leadingSpace s \<le> length s"
  proof (cases "filter (\<lambda>e. prefix e s) spaceEncodings")
    case Nil
    then show ?thesis by (simp add: leadingSpace_def)
  next
    case (Cons e es)
    then have "e \<in> set (filter (\<lambda>e. prefix e s) spaceEncodings)" by simp
    then have "prefix e s" by simp
    then have "length e \<le> length s" by (rule prefix_length_le)
    with Cons show ?thesis by (simp add: leadingSpace_def)
  qed
  with pos show "(drop (leadingSpace s) s, s) \<in> measure length" by simp
qed

function TrimRightSpace :: "string \<Rightarrow> string" where
  "TrimRightSpace s =
     (if trailingSpace s = 0 then s
      else TrimRightSpace (take (length s - trailingSpace s) s))"
  by pat_completeness auto
termination
proof (relation "measure length")
  show "wf (measure length)" by simp
next
  fix s :: string
  assume pos: "trailingSpace s \<noteq> 0"
  have "trailingSpace s \<le> length s"
  proof (cases "filter (\<lambda>e. suffix e s) spaceEncodings")
    case Nil
    then show ?thesis by (simp add: trailingSpace_def)
  next
    case (Cons e es)
    then have "e \<in> set (filter (\<lambda>e. suffix e s) spaceEncodings)" by simp
    then have "suffix e s" by simp
    then have "length e \<le> length s" by (rule suffix_length_le)
    with Cons show ?thesis by (simp add: trailingSpace_def)
  qed
  with pos show "(take (length s - trailingSpace s) s, s) \<in> measure length" by simp
qed

declare TrimLeftSpace.simps [simp del] TrimRightSpace.simps [simp del]

definition TrimSpace :: "string \<Rightarrow> string" where
  "TrimSpace s = TrimRightSpace (TrimLeftSpace s)"

text \<open>
  \<open>strings.ToLower(name) == "dn"\<close>: \<open>ToLower\<close> maps \<open>D\<close> and \<open>N\<close> to \<open>d\<close> and \<open>n\<close> and no
  other rune to either of them, so the comparison holds for these four names only.
\<close>

definition ToLower_is_dn :: "string \<Rightarrow> bool" where
  "ToLower_is_dn name \<longleftrightarrow> name \<in> {''dn'', ''dN'', ''Dn'', ''DN''}"

subsection \<open>Data model\<close>

text \<open>
  Field names that several Go structs share (\<open>Name\<close>, \<open>Email\<close>, \<open>Attributes\<close>) carry the
  struct's name as a prefix; every other field keeps its name.
\<close>

record AttributeMap =
  Username :: string
  AttributeMap_Name :: string
  Surname :: string
  AttributeMap_Email :: string
  MemberOf :: string

record ServerConfig =
  Host :: string
  Port :: int
  UseSSL :: bool
  StartTLS :: bool
  SkipVerifySSL :: bool
  RootCACert :: string
  ClientCert :: string
  ClientKey :: string
  BindDN :: string
  BindPassword :: string
  Attr :: AttributeMap
  SearchFilter :: string
  SearchBaseDNs :: "string list"
  GroupSearchFilter :: string
  GroupSearchFilterUserAttribute :: string
  GroupSearchBaseDNs :: "string list"

text \<open>\<open>goldap.EntryAttribute\<close> and \<open>goldap.Entry\<close>, as a search returns them.\<close>

record EntryAttribute =
  EntryAttribute_Name :: string
  Values :: "string list"

record Entry =
  DN :: string
  Entry_Attributes :: "EntryAttribute list"

text \<open>
  Modelled from the spec: the declarations of \<open>models.User\<close>, \<open>models.AuthModuleLDAP\<close> and
  \<open>types.LoginData\<close> are in packages outside the sources at hand. The user is the "output
  identity record: display name, email, an origin tag marking it as directory-sourced",
  with the three fields \<open>buildGoldenUser\<close> assigns; the login attempt carries the "requested
  login name and plaintext credential", the two fields \<open>Login\<close> reads.
\<close>

datatype AuthModuleTag = AuthModuleLDAP

record User =
  AuthModule :: AuthModuleTag
  User_Name :: string
  User_Email :: string

record LoginData =
  LoginData_Name :: string
  Password :: string

subsection \<open>Entry mapper\<close>

text \<open>\<open>appendIfNotEmpty\<close>: the values that are not the empty string, appended in order.\<close>

fun appendIfNotEmpty :: "string list \<Rightarrow> string list \<Rightarrow> string list" where
  "appendIfNotEmpty slice' [] = slice'"
| "appendIfNotEmpty slice' (v # values) =
     (if v \<noteq> [] then appendIfNotEmpty (slice' @ [v]) values
      else appendIfNotEmpty slice' values)"

text \<open>
  \<open>getAttribute\<close>: the entry's DN for the name \<open>dn\<close> in any case; otherwise the first
  value of the first attribute of that name that has a value; otherwise the empty string.
\<close>

fun getAttribute_loop :: "string \<Rightarrow> EntryAttribute list \<Rightarrow> string" where
  "getAttribute_loop name [] = []"
| "getAttribute_loop name (attr # attrs) =
     (if EntryAttribute_Name attr = name \<and> length (Values attr) > 0 then Values attr ! 0
      else getAttribute_loop name attrs)"

definition getAttribute :: "string \<Rightarrow> Entry \<Rightarrow> string" where
  "getAttribute name entry =
     (if ToLower_is_dn name then DN entry
      else getAttribute_loop name (Entry_Attributes entry))"

text \<open>Go's \<open>error\<close> values, as far as the client tells them apart.\<close>

datatype go_error =
    ErrInvalidCredentials
  | ErrCouldNotFindUser
  | LDAPError "16 word" string
  | Wrapped string go_error
  | GenericError string

text \<open>
  \<open>buildGoldenUser\<close>: \<open>fmt.Sprintf("%s %s", a, b)\<close> of two strings is \<open>a\<close>, one space
  and \<open>b\<close>. The function has an error result that is always \<open>nil\<close>.
\<close>

definition buildGoldenUser :: "ServerConfig \<Rightarrow> Entry \<Rightarrow> go_error + User" where
  "buildGoldenUser config user =
     (let attrs = Attr config in
      Inr \<lparr>AuthModule = AuthModuleLDAP,
           User_Name = TrimSpace (getAttribute (AttributeMap_Name attrs) user @ '' '' @
                                  getAttribute (Surname attrs) user),
           User_Email = getAttribute (AttributeMap_Email attrs) user\<rparr>)"

text \<open>\<open>serializeUsers\<close>: the entries mapped in order; the first error would end the loop.\<close>

fun serializeUsers_loop ::
  "ServerConfig \<Rightarrow> Entry list \<Rightarrow> User list \<Rightarrow> go_error + User list" where
  "serializeUsers_loop config [] serialized = Inr serialized"
| "serializeUsers_loop config (user # entries) serialized =
     (case buildGoldenUser config user of
        Inl err \<Rightarrow> Inl err
      | Inr extUser \<Rightarrow> serializeUsers_loop config entries (serialized @ [extUser]))"

definition serializeUsers :: "ServerConfig \<Rightarrow> Entry list \<Rightarrow> go_error + User list" where
  "serializeUsers config entries = serializeUsers_loop config entries []"

subsection \<open>Formatting the bind DN\<close>

text \<open>
  \<open>fmt.Sprintf(format, a)\<close> with one string operand. The model interprets the directives
  \<open>%s\<close>, \<open>%v\<close> and \<open>%%\<close> written without flags, width, precision or argument index:
  the first \<open>%s\<close> or \<open>%v\<close> prints the operand, a later one prints \<open>%!s(MISSING)\<close>,
  \<open>%%\<close> prints a percent sign, a format that ends in \<open>%\<close> prints \<open>%!(NOVERB)\<close>, and an
  operand that no verb used is reported at the end. \<open>Sprintf\<close> reads the format from left
  to right and carries from one directive to the next only whether the operand has been
  used, so what it prints from the first directive that the model does not interpret
  to the end is a function of the rest of the format, the operand and that flag. This
  function is the parameter \<open>fmt\<close> of the model: nothing is assumed about it, and it is
  never called for a format that has only the three directives above.
\<close>

type_synonym other_directives = "string \<Rightarrow> string \<Rightarrow> bool \<Rightarrow> string"

definition Sprintf_extra :: "string \<Rightarrow> bool \<Rightarrow> string" where
  "Sprintf_extra a used = (if used then [] else ''%!(EXTRA string='' @ a @ '')'')"

fun Sprintf_from :: "other_directives \<Rightarrow> string \<Rightarrow> string \<Rightarrow> bool \<Rightarrow> string" where
  "Sprintf_from fmt [] a used = Sprintf_extra a used"
| "Sprintf_from fmt [c] a used =
     (if c = CHR ''%'' then ''%!(NOVERB)'' @ Sprintf_extra a used
      else c # Sprintf_extra a used)"
| "Sprintf_from fmt (c # d # cs) a used =
     (if c \<noteq> CHR ''%'' then c # Sprintf_from fmt (d # cs) a used
      else if d = CHR ''%'' then CHR ''%'' # Sprintf_from fmt cs a used
      else if d = CHR ''s'' \<or> d = CHR ''v'' then
        (if used then (''%!'' @ [d] @ ''(MISSING)'') @ Sprintf_from fmt cs a True
         else a @ Sprintf_from fmt cs a True)
      else fmt (c # d # cs) a used)"

definition Sprintf :: "other_directives \<Rightarrow> string \<Rightarrow> string \<Rightarrow> string" where
  "Sprintf fmt format a = Sprintf_from fmt format a False"

subsection \<open>The directory connection and the observable calls\<close>

text \<open>The search request of go-ldap, with the fields the client sets.\<close>

datatype SearchScope = ScopeBaseObject | ScopeSingleLevel | ScopeWholeSubtree

datatype DerefMode = NeverDerefAliases | DerefInSearching | DerefFindingBaseObj | DerefAlways

record SearchRequest =
  BaseDN :: string
  Scope :: SearchScope
  DerefAliases :: DerefMode
  SearchRequest_Attributes :: "string list"
  Filter :: string

record SearchResult =
  Entries :: "Entry list"

text \<open>
  \<open>tls.Certificate\<close> with its certificate chain, \<open>x509.CertPool\<close> as the PEM blocks added
  to it, and the fields of \<open>tls.Config\<close> that \<open>Dial\<close> sets. \<open>RootCAs\<close> is \<open>None\<close> for a
  \<open>nil\<close> pool.
\<close>

record tlsCertificate =
  Certificate :: "string list"

type_synonym CertPool = "string list"

record tlsConfig =
  InsecureSkipVerify :: bool
  ServerName :: string
  RootCAs :: "CertPool option"
  Certificates :: "tlsCertificate list"

text \<open>
  The interface \<open>IConnection\<close> as a record of its methods. The directory and the network
  are a world \<open>'w\<close> that every call may read and change; a method returns its result and
  the new world. A \<open>Search\<close> without error returns a result that is not \<open>nil\<close>, as go-ldap
  does. \<open>Add\<close>, \<open>Del\<close> and \<open>Close\<close> are not called by the functions modelled here.
\<close>

record 'w IConnection =
  conn_Bind :: "string \<Rightarrow> string \<Rightarrow> 'w \<Rightarrow> go_error option \<times> 'w"
  conn_UnauthenticatedBind :: "string \<Rightarrow> 'w \<Rightarrow> go_error option \<times> 'w"
  conn_Search :: "SearchRequest \<Rightarrow> 'w \<Rightarrow> (go_error + SearchResult) \<times> 'w"
  conn_StartTLS :: "tlsConfig \<Rightarrow> 'w \<Rightarrow> go_error option \<times> 'w"

record 'w Server =
  Config :: ServerConfig
  Connection :: "'w IConnection option"

text \<open>
  The calls made on the connection are recorded, in order, in a trace that is threaded
  with the world: the trace is how "performs exactly one bind" is stated. It has no
  counterpart in the Go code and no function reads it.
\<close>

datatype event =
    BindCall string string
  | UnauthenticatedBindCall string
  | SearchCall SearchRequest

type_synonym 'w state = "'w \<times> event list"

text \<open>What ends a function other than a result: an error it returns or a run-time panic.\<close>

datatype panic = NilPointerDereference | SliceBoundsOutOfRange

datatype failure = Err go_error | Panic panic

text \<open>A method call on \<open>server.Connection\<close>; on a \<open>nil\<close> interface the call panics.\<close>

definition Connection_Bind ::
  "'w Server \<Rightarrow> string \<Rightarrow> string \<Rightarrow> 'w state \<Rightarrow> failure option \<times> 'w state" where
  "Connection_Bind server username password st =
     (case Connection server of
        None \<Rightarrow> (Some (Panic NilPointerDereference), st)
      | Some conn \<Rightarrow>
          (case conn_Bind conn username password (fst st) of
             (r, w') \<Rightarrow> (map_option Err r, (w', snd st @ [BindCall username password]))))"

definition Connection_UnauthenticatedBind ::
  "'w Server \<Rightarrow> string \<Rightarrow> 'w state \<Rightarrow> failure option \<times> 'w state" where
  "Connection_UnauthenticatedBind server username st =
     (case Connection server of
        None \<Rightarrow> (Some (Panic NilPointerDereference), st)
      | Some conn \<Rightarrow>
          (case conn_UnauthenticatedBind conn username (fst st) of
             (r, w') \<Rightarrow> (map_option Err r, (w', snd st @ [UnauthenticatedBindCall username]))))"

definition Connection_Search ::
  "'w Server \<Rightarrow> SearchRequest \<Rightarrow> 'w state \<Rightarrow> (failure + SearchResult) \<times> 'w state" where
  "Connection_Search server req st =
     (case Connection server of
        None \<Rightarrow> (Inl (Panic NilPointerDereference), st)
      | Some conn \<Rightarrow>
          (case conn_Search conn req (fst st) of
             (Inl err, w') \<Rightarrow> (Inl (Err err), (w', snd st @ [SearchCall req]))
           | (Inr result, w') \<Rightarrow> (Inr result, (w', snd st @ [SearchCall req]))))"

subsection \<open>Binding\<close>

text \<open>
  \<open>errors.As(err, &ldapErr)\<close>: the first \<open>*goldap.Error\<close> in the chain of wrapped errors,
  by its result code.
\<close>

fun errors_As_LDAPError :: "go_error \<Rightarrow> 16 word option" where
  "errors_As_LDAPError (LDAPError code msg) = Some code"
| "errors_As_LDAPError (Wrapped msg err) = errors_As_LDAPError err"
| "errors_As_LDAPError ErrInvalidCredentials = None"
| "errors_As_LDAPError ErrCouldNotFindUser = None"
| "errors_As_LDAPError (GenericError msg) = None"

text \<open>\<open>userBind\<close>: result code 49 becomes \<open>ErrInvalidCredentials\<close>, other errors pass.\<close>

definition userBind ::
  "'w Server \<Rightarrow> string \<Rightarrow> string \<Rightarrow> 'w state \<Rightarrow> failure option \<times> 'w state" where
  "userBind server path password st =
     (case Connection_Bind server path password st of
        (None, st') \<Rightarrow> (None, st')
      | (Some (Err err), st') \<Rightarrow>
          (if (case errors_As_LDAPError err of Some code \<Rightarrow> code = 49 | None \<Rightarrow> False)
           then (Some (Err ErrInvalidCredentials), st')
           else (Some (Err err), st'))
      | (Some f, st') \<Rightarrow> (Some f, st'))"

text \<open>\<open>UserBind\<close> and \<open>AdminBind\<close> log a failure and return what \<open>userBind\<close> returns.\<close>

definition UserBind ::
  "'w Server \<Rightarrow> string \<Rightarrow> string \<Rightarrow> 'w state \<Rightarrow> failure option \<times> 'w state" where
  "UserBind server username password st = userBind server username password st"

definition AdminBind :: "'w Server \<Rightarrow> 'w state \<Rightarrow> failure option \<times> 'w state" where
  "AdminBind server st =
     userBind server (BindDN (Config server)) (BindPassword (Config server)) st"

definition shouldAdminBind :: "'w Server \<Rightarrow> bool" where
  "shouldAdminBind server \<longleftrightarrow> BindPassword (Config server) \<noteq> []"

definition singleBindDN :: "other_directives \<Rightarrow> 'w Server \<Rightarrow> string \<Rightarrow> string" where
  "singleBindDN fmt server username = Sprintf fmt (BindDN (Config server)) username"

definition shouldSingleBind :: "'w Server \<Rightarrow> bool" where
  "shouldSingleBind server \<longleftrightarrow> Contains (BindDN (Config server)) ''%s''"

text \<open>\<open>Bind\<close>: the bind without a user, with the configured password or unauthenticated.\<close>

definition Bind :: "'w Server \<Rightarrow> 'w state \<Rightarrow> failure option \<times> 'w state" where
  "Bind server st =
     (if shouldAdminBind server then AdminBind server st
      else Connection_UnauthenticatedBind server (BindDN (Config server)) st)"

subsection \<open>Batched entry search\<close>

definition UsersMaxRequest :: nat where
  "UsersMaxRequest = 500"

text \<open>\<open>getSearchRequest\<close>: one request for a search base and a batch of logins.\<close>

fun getSearchRequest_search :: "ServerConfig \<Rightarrow> string list \<Rightarrow> string \<Rightarrow> string" where
  "getSearchRequest_search config [] search = search"
| "getSearchRequest_search config (login # logins) search =
     (let query = ReplaceAll_placeholder (SearchFilter config) (EscapeFilter login)
      in getSearchRequest_search config logins (search @ query))"

definition getSearchRequest :: "'w Server \<Rightarrow> string \<Rightarrow> string list \<Rightarrow> SearchRequest" where
  "getSearchRequest server base logins =
     (let inputs = Attr (Config server);
          attributes = appendIfNotEmpty []
            [Username inputs, Surname inputs, AttributeMap_Email inputs,
             AttributeMap_Name inputs, MemberOf inputs,
             GroupSearchFilterUserAttribute (Config server)];
          search = getSearchRequest_search (Config server) logins [];
          filter' = ''(|'' @ search @ '')''
      in \<lparr>BaseDN = base,
          Scope = ScopeWholeSubtree,
          DerefAliases = NeverDerefAliases,
          SearchRequest_Attributes = attributes,
          Filter = filter'\<rparr>)"

text \<open>
  \<open>users\<close>: the search bases in order, until one has entries. \<open>result\<close> is a pointer that
  is \<open>nil\<close> (\<open>None\<close>) until a search assigns it, and \<open>result.Entries\<close> after the loop
  dereferences it.
\<close>

fun users_loop ::
  "'w Server \<Rightarrow> string list \<Rightarrow> string list \<Rightarrow> SearchResult option \<Rightarrow> 'w state \<Rightarrow>
   (failure + SearchResult option) \<times> 'w state" where
  "users_loop server logins [] result st = (Inr result, st)"
| "users_loop server logins (base # bases) result st =
     (case Connection_Search server (getSearchRequest server base logins) st of
        (Inl f, st') \<Rightarrow> (Inl f, st')
      | (Inr r, st') \<Rightarrow>
          (if length (Entries r) > 0 then (Inr (Some r), st')
           else users_loop server logins bases (Some r) st'))"

definition users ::
  "'w Server \<Rightarrow> string list \<Rightarrow> 'w state \<Rightarrow> (failure + Entry list) \<times> 'w state" where
  "users server logins st =
     (case users_loop server logins (SearchBaseDNs (Config server)) None st of
        (Inl f, st') \<Rightarrow> (Inl f, st')
      | (Inr None, st') \<Rightarrow> (Inl (Panic NilPointerDereference), st')
      | (Inr (Some result), st') \<Rightarrow> (Inr (Entries result), st'))"

text \<open>
  \<open>getUsersIteration\<close>: \<open>fn\<close> is called for the batches \<open>[500 (i - 1), min (500 i) n)\<close>,
  \<open>i = 1, 2, ...\<close>, until it fails. The Go code computes the number of iterations as
  \<open>int(math.Ceil(float64(lenLogins) / float64(UsersMaxRequest)))\<close> and the bounds through
  \<open>float64\<close> as well; the model computes with exact numbers, which is what the
  \<open>float64\<close> operations return for every length a slice of strings can have (the
  conversions are exact below \<open>2^53\<close>, and a quotient that is not an integer is at least
  \<open>1/500\<close> away from one, more than the rounding error). The callback works on a state
  \<open>'s\<close>, the variables its closure captures.
\<close>

function getUsersIteration_loop ::
  "nat \<Rightarrow> nat \<Rightarrow> (nat \<Rightarrow> nat \<Rightarrow> 's \<Rightarrow> failure option \<times> 's) \<Rightarrow> nat \<Rightarrow> 's \<Rightarrow>
   failure option \<times> 's" where
  "getUsersIteration_loop lenLogins iterations fn i s =
     (if i < iterations + 1 then
        (let previous = UsersMaxRequest * (i - 1);
             current = min (i * UsersMaxRequest) lenLogins
         in case fn previous current s of
              (Some err, s') \<Rightarrow> (Some err, s')
            | (None, s') \<Rightarrow> getUsersIteration_loop lenLogins iterations fn (i + 1) s')
      else (None, s))"
  by pat_completeness auto
termination
  by (relation "measure (\<lambda>(lenLogins, iterations, fn, i, s). iterations + 1 - i)") auto

declare getUsersIteration_loop.simps [simp del]

definition getUsersIteration ::
  "string list \<Rightarrow> (nat \<Rightarrow> nat \<Rightarrow> 's \<Rightarrow> failure option \<times> 's) \<Rightarrow> 's \<Rightarrow> failure option \<times> 's" where
  "getUsersIteration logins fn s =
     (let lenLogins = length logins;
          iterations = nat \<lceil>real lenLogins / real UsersMaxRequest\<rceil>
      in getUsersIteration_loop lenLogins iterations fn 1 s)"

text \<open>The slice expression \<open>logins[previous:current]\<close>, which panics out of range.\<close>

definition slice_of :: "'a list \<Rightarrow> nat \<Rightarrow> nat \<Rightarrow> 'a list option" where
  "slice_of xs lo hi =
     (if lo \<le> hi \<and> hi \<le> length xs then Some (take (hi - lo) (drop lo xs)) else None)"

text \<open>
  \<open>Users\<close>: the closure passed to \<open>getUsersIteration\<close> searches one batch and appends its
  entries to the captured variable; its state is that variable and the world.
\<close>

definition Users_fn ::
  "'w Server \<Rightarrow> string list \<Rightarrow> nat \<Rightarrow> nat \<Rightarrow> Entry list \<times> 'w state \<Rightarrow>
   failure option \<times> (Entry list \<times> 'w state)" where
  "Users_fn server logins previous current s =
     (case slice_of logins previous current of
        None \<Rightarrow> (Some (Panic SliceBoundsOutOfRange), s)
      | Some batch \<Rightarrow>
          (case users server batch (snd s) of
             (Inl err, st') \<Rightarrow> (Some err, (fst s, st'))
           | (Inr entries, st') \<Rightarrow> (None, (fst s @ entries, st'))))"

definition Users ::
  "'w Server \<Rightarrow> string list \<Rightarrow> 'w state \<Rightarrow> (failure + User list) \<times> 'w state" where
  "Users server logins st =
     (case getUsersIteration logins (Users_fn server logins) ([], st) of
        (Some err, (found, st')) \<Rightarrow> (Inl err, st')
      | (None, (found, st')) \<Rightarrow>
          (if length found = 0 then (Inr [], st')
           else (case serializeUsers (Config server) found of
                   Inl err \<Rightarrow> (Inl (Err err), st')
                 | Inr serializedUsers \<Rightarrow> (Inr serializedUsers, st'))))"

subsection \<open>Login\<close>

text \<open>\<open>validateGoldenUser\<close>: its body is commented out; it returns \<open>nil\<close>.\<close>

definition validateGoldenUser :: "'w Server \<Rightarrow> User \<Rightarrow> go_error option" where
  "validateGoldenUser server user = None"

text \<open>
  The \<open>switch\<close> at the start of \<open>Login\<close>: the bind before the search, with the value it
  leaves in \<open>authAndBind\<close>. \<open>Login\<close> and the functions it calls that format the bind DN
  take the parameter \<open>fmt\<close> of \<open>Sprintf\<close>.
\<close>

definition Login_bind ::
  "other_directives \<Rightarrow> 'w Server \<Rightarrow> LoginData \<Rightarrow> 'w state \<Rightarrow>
   (failure option \<times> bool) \<times> 'w state" where
  "Login_bind fmt server query st =
     (if shouldAdminBind server then
        (case AdminBind server st of (r, st') \<Rightarrow> ((r, False), st'))
      else if shouldSingleBind server then
        (case UserBind server (singleBindDN fmt server (LoginData_Name query)) (Password query) st of
           (r, st') \<Rightarrow> ((r, True), st'))
      else
        (case Connection_UnauthenticatedBind server (BindDN (Config server)) st of
           (r, st') \<Rightarrow> ((r, False), st')))"

definition Login ::
  "other_directives \<Rightarrow> 'w Server \<Rightarrow> LoginData \<Rightarrow> 'w state \<Rightarrow>
   (failure + User) \<times> 'w state" where
  "Login fmt server query st =
     (case Login_bind fmt server query st of
        ((Some err, authAndBind), st1) \<Rightarrow> (Inl err, st1)
      | ((None, authAndBind), st1) \<Rightarrow>
          (case Users server [LoginData_Name query] st1 of
             (Inl err, st2) \<Rightarrow> (Inl err, st2)
           | (Inr found, st2) \<Rightarrow>
               (if length found = 0 then (Inl (Err ErrCouldNotFindUser), st2)
                else
                  (let user = found ! 0 in
                   case validateGoldenUser server user of
                     Some err \<Rightarrow> (Inl (Err err), st2)
                   | None \<Rightarrow>
                       (if \<not> authAndBind then
                          (case UserBind server (User_Name user) (Password query) st2 of
                             (Some err, st3) \<Rightarrow> (Inl err, st3)
                           | (None, st3) \<Rightarrow> (Inr user, st3))
                        else (Inr user, st2))))))"

subsection \<open>Dial\<close>














subsection \<open>Notions used to state the properties\<close>

text \<open>The kinds of events in a trace.\<close>

fun is_SearchCall :: "event \<Rightarrow> bool" where
  "is_SearchCall (SearchCall req) = True"
| "is_SearchCall (BindCall username password) = False"
| "is_SearchCall (UnauthenticatedBindCall username) = False"

fun is_bind :: "event \<Rightarrow> bool" where
  "is_bind (BindCall username password) = True"
| "is_bind (UnauthenticatedBindCall username) = True"
| "is_bind (SearchCall req) = False"



text \<open>The bounds of the \<open>i\<close>-th call, as the loop of \<open>getUsersIteration\<close> computes them.\<close>

definition batch :: "nat \<Rightarrow> nat \<Rightarrow> nat \<times> nat" where
  "batch n i = (UsersMaxRequest * (i - 1), min (i * UsersMaxRequest) n)"

text \<open>
  The characters that give an LDAP filter its structure, and the decoding of the escape
  sequences of a filter value (a backslash and two hexadecimal digits, RFC 4515), to
  state what escaping achieves.
\<close>

definition filter_metacharacter :: "char \<Rightarrow> bool" where
  "filter_metacharacter c \<longleftrightarrow> c \<in> {CHR ''('', CHR '')'', CHR ''*'', CHR 0x00}"

definition hexval :: "char \<Rightarrow> nat" where
  "hexval c =
     (let n = of_char c :: nat in
      if 48 \<le> n \<and> n \<le> 57 then n - 48
      else if 97 \<le> n \<and> n \<le> 102 then n - 87
      else if 65 \<le> n \<and> n \<le> 70 then n - 55
      else 0)"

fun UnescapeFilter :: "string \<Rightarrow> string" where
  "UnescapeFilter [] = []"
| "UnescapeFilter (c # cs) =
     (if c = backslash then
        (case cs of
           h1 # h2 # rest \<Rightarrow> char_of (16 * hexval h1 + hexval h2) # UnescapeFilter rest
         | _ \<Rightarrow> [])
      else c # UnescapeFilter cs)"


text \<open>
  The bind strategies as the specification selects them: admin-bind when a bind password
  is configured; single-bind when the bind DN contains the placeholder and no bind
  password is set; the unauthenticated bind otherwise.
\<close>

datatype BindStrategy = AdminBindStrategy | SingleBindStrategy | UnauthenticatedBindStrategy

definition spec_strategy :: "ServerConfig \<Rightarrow> BindStrategy" where
  "spec_strategy config =
     (if BindPassword config \<noteq> [] then AdminBindStrategy
      else if Contains (BindDN config) ''%s'' \<and> BindPassword config = [] then SingleBindStrategy
      else UnauthenticatedBindStrategy)"

subsection \<open>Example configurations, entries and directories\<close>

definition example_attributes :: AttributeMap where
  "example_attributes =
     \<lparr>Username = ''uid'', AttributeMap_Name = ''givenName'', Surname = ''sn'',
      AttributeMap_Email = ''mail'', MemberOf = []\<rparr>"

definition example_config :: ServerConfig where
  "example_config =
     \<lparr>Host = ''ldap1.example ldap2.example ldap3.example'', Port = 389, UseSSL = False, StartTLS = False,
      SkipVerifySSL = False, RootCACert = [], ClientCert = [], ClientKey = [],
      BindDN = ''cn=admin,dc=example'', BindPassword = ''adminpw'',
      Attr = example_attributes, SearchFilter = ''(uid=%s)'',
      SearchBaseDNs = [''dc=example''], GroupSearchFilter = [],
      GroupSearchFilterUserAttribute = [], GroupSearchBaseDNs = []\<rparr>"

definition jane_doe :: Entry where
  "jane_doe =
     \<lparr>DN = ''uid=jane,dc=x'',
      Entry_Attributes =
        [\<lparr>EntryAttribute_Name = ''givenName'', Values = [''Jane'']\<rparr>,
         \<lparr>EntryAttribute_Name = ''sn'', Values = [''Doe'']\<rparr>,
         \<lparr>EntryAttribute_Name = ''mail'', Values = [''jane@x.com'']\<rparr>]\<rparr>"

definition jane :: Entry where
  "jane =
     \<lparr>DN = ''uid=jane,dc=x'',
      Entry_Attributes =
        [\<lparr>EntryAttribute_Name = ''givenName'', Values = [''Jane'']\<rparr>,
         \<lparr>EntryAttribute_Name = ''mail'', Values = [''jane@x.com'']\<rparr>]\<rparr>"

definition alice :: Entry where
  "alice =
     \<lparr>DN = ''uid=alice,dc=example'',
      Entry_Attributes =
        [\<lparr>EntryAttribute_Name = ''givenName'', Values = [''Alice'']\<rparr>,
         \<lparr>EntryAttribute_Name = ''mail'', Values = [''alice@example.com'']\<rparr>]\<rparr>"

definition carol :: Entry where
  "carol =
     \<lparr>DN = ''uid=carol,dc=example'',
      Entry_Attributes =
        [\<lparr>EntryAttribute_Name = ''givenName'', Values = [''Carol'']\<rparr>,
         \<lparr>EntryAttribute_Name = ''mail'', Values = [''carol@example.com'']\<rparr>]\<rparr>"

text \<open>
  A directory that knows the administrator and \<open>alice\<close>: it accepts a bind with the right
  DN and password, answers any other bind with result code 49 (invalid credentials), and
  finds \<open>alice\<close> by her login only.
\<close>

definition example_directory :: "unit IConnection" where
  "example_directory =
     \<lparr>conn_Bind = (\<lambda>dn pw w.
        (if (dn = ''cn=admin,dc=example'' \<and> pw = ''adminpw'') \<or>
            (dn = ''uid=alice,dc=example'' \<and> pw = ''alice-password'')
         then None else Some (LDAPError 49 ''Invalid Credentials''), w)),
      conn_UnauthenticatedBind = (\<lambda>dn w. (None, w)),
      conn_Search = (\<lambda>req w.
        (Inr \<lparr>Entries = (if Filter req = ''(|(uid=alice))'' then [alice] else [])\<rparr>, w)),
      conn_StartTLS = (\<lambda>cfg w. (None, w))\<rparr>"

text \<open>A directory that accepts every bind and answers every search with \<open>carol\<close>.\<close>

definition open_directory :: "unit IConnection" where
  "open_directory =
     \<lparr>conn_Bind = (\<lambda>dn pw w. (None, w)),
      conn_UnauthenticatedBind = (\<lambda>dn w. (None, w)),
      conn_Search = (\<lambda>req w. (Inr \<lparr>Entries = [carol]\<rparr>, w)),
      conn_StartTLS = (\<lambda>cfg w. (None, w))\<rparr>"

definition bob_login :: LoginData where
  "bob_login = \<lparr>LoginData_Name = ''bob'', Password = ''secret''\<rparr>"

definition carol_login :: LoginData where
  "carol_login = \<lparr>LoginData_Name = ''carol'', Password = ''secret''\<rparr>"

definition admin_bind_server :: "unit IConnection \<Rightarrow> unit Server" where
  "admin_bind_server conn = \<lparr>Config = example_config, Connection = Some conn\<rparr>"

definition single_bind_server :: "unit IConnection \<Rightarrow> unit Server" where
  "single_bind_server conn =
     \<lparr>Config = example_config\<lparr>BindDN := ''uid=%s,dc=example'', BindPassword := []\<rparr>,
      Connection = Some conn\<rparr>"





text \<open>
  A value for the parameter of \<open>Sprintf\<close> in the examples, whose formats have no
  directive that would call it.
\<close>

definition no_other_directives :: other_directives where
  "no_other_directives format a used = []"

text \<open>A single-bind server with a given bind DN template.\<close>

definition single_bind_server_with :: "string \<Rightarrow> unit Server" where
  "single_bind_server_with template =
     \<lparr>Config = example_config\<lparr>BindDN := template, BindPassword := []\<rparr>,
      Connection = Some open_directory\<rparr>"

section \<open>Properties\<close>

subsection \<open>Entry mapper\<close>

lemma spaceEncodings_nonempty: "[] \<notin> set spaceEncodings"
  by (simp add: spaceEncodings_def)

lemma leadingSpace_0_iff:
  "leadingSpace s = 0 \<longleftrightarrow> \<not> (\<exists>e\<in>set spaceEncodings. prefix e s)"
proof (cases "filter (\<lambda>e. prefix e s) spaceEncodings")
  case Nil
  then show ?thesis by (simp add: leadingSpace_def filter_empty_conv)
next
  case (Cons e es)
  then have "e \<in> set (filter (\<lambda>e. prefix e s) spaceEncodings)" by simp
  then have e: "e \<in> set spaceEncodings" "prefix e s" by simp_all
  with spaceEncodings_nonempty have "e \<noteq> []" by auto
  with Cons e show ?thesis by (auto simp: leadingSpace_def)
qed

lemma trailingSpace_0_iff:
  "trailingSpace s = 0 \<longleftrightarrow> \<not> (\<exists>e\<in>set spaceEncodings. suffix e s)"
proof (cases "filter (\<lambda>e. suffix e s) spaceEncodings")
  case Nil
  then show ?thesis by (simp add: trailingSpace_def filter_empty_conv)
next
  case (Cons e es)
  then have "e \<in> set (filter (\<lambda>e. suffix e s) spaceEncodings)" by simp
  then have e: "e \<in> set spaceEncodings" "suffix e s" by simp_all
  with spaceEncodings_nonempty have "e \<noteq> []" by auto
  with Cons e show ?thesis by (auto simp: trailingSpace_def)
qed

lemma leadingSpace_TrimLeftSpace: "leadingSpace (TrimLeftSpace s) = 0"
  by (induction s rule: TrimLeftSpace.induct) (subst TrimLeftSpace.simps, simp)

lemma trailingSpace_TrimRightSpace: "trailingSpace (TrimRightSpace s) = 0"
  by (induction s rule: TrimRightSpace.induct) (subst TrimRightSpace.simps, simp)

lemma leadingSpace_take: "leadingSpace s = 0 \<Longrightarrow> leadingSpace (take k s) = 0"
  unfolding leadingSpace_0_iff
  by (meson prefix_order.trans take_is_prefix)

lemma leadingSpace_TrimRightSpace:
  "leadingSpace s = 0 \<Longrightarrow> leadingSpace (TrimRightSpace s) = 0"
proof (induction s rule: TrimRightSpace.induct)
  case (1 s)
  show ?case
  proof (cases "trailingSpace s = 0")
    case True
    with "1.prems" show ?thesis by (subst TrimRightSpace.simps) simp
  next
    case False
    with "1.prems" have "leadingSpace (take (length s - trailingSpace s) s) = 0"
      by (simp add: leadingSpace_take)
    with False "1.IH" show ?thesis by (subst TrimRightSpace.simps) simp
  qed
qed

lemma TrimSpace_no_outer_space:
  "leadingSpace (TrimSpace s) = 0 \<and> trailingSpace (TrimSpace s) = 0"
  by (simp add: TrimSpace_def leadingSpace_TrimLeftSpace leadingSpace_TrimRightSpace
      trailingSpace_TrimRightSpace)

lemma getAttribute_loop_absent:
  "name \<notin> EntryAttribute_Name ` set attrs \<Longrightarrow> getAttribute_loop name attrs = []"
  by (induction attrs) auto

lemma TrimSpace_Jane_Doe: "TrimSpace ''Jane Doe'' = ''Jane Doe''"
  by code_simp

lemma TrimSpace_Jane: "TrimSpace ''Jane '' = ''Jane''"
  by code_simp

lemma buildGoldenUser_jane_doe:
  "buildGoldenUser example_config jane_doe =
     Inr \<lparr>AuthModule = AuthModuleLDAP, User_Name = ''Jane Doe'', User_Email = ''jane@x.com''\<rparr>"
  by (simp add: buildGoldenUser_def example_config_def example_attributes_def jane_doe_def
      getAttribute_def ToLower_is_dn_def TrimSpace_Jane_Doe)

lemma buildGoldenUser_jane:
  "buildGoldenUser example_config jane =
     Inr \<lparr>AuthModule = AuthModuleLDAP, User_Name = ''Jane'', User_Email = ''jane@x.com''\<rparr>"
  by (simp add: buildGoldenUser_def example_config_def example_attributes_def jane_def
      getAttribute_def ToLower_is_dn_def TrimSpace_Jane)

text \<open>
  C8. \<open>buildGoldenUser\<close> never fails. The display name is the value of the mapped name
  attribute, one space and the value of the mapped surname attribute, trimmed, so it has
  no white space at either end; an attribute that the entry does not have contributes
  the empty string. Name "Jane" and surname "Doe" give "Jane Doe" (and the email is
  mapped); without a surname attribute the display name is "Jane".
\<close>

theorem buildGoldenUser_display_name:
  "(\<exists>u. buildGoldenUser config entry = Inr u \<and>
        User_Name u =
          TrimSpace (getAttribute (AttributeMap_Name (Attr config)) entry @ '' '' @
                     getAttribute (Surname (Attr config)) entry) \<and>
        leadingSpace (User_Name u) = 0 \<and> trailingSpace (User_Name u) = 0) \<and>
   (\<not> ToLower_is_dn name \<and> name \<notin> EntryAttribute_Name ` set (Entry_Attributes entry) \<longrightarrow>
      getAttribute name entry = []) \<and>
   buildGoldenUser example_config jane_doe =
     Inr \<lparr>AuthModule = AuthModuleLDAP, User_Name = ''Jane Doe'', User_Email = ''jane@x.com''\<rparr> \<and>
   buildGoldenUser example_config jane =
     Inr \<lparr>AuthModule = AuthModuleLDAP, User_Name = ''Jane'', User_Email = ''jane@x.com''\<rparr>"
proof -
  have "\<exists>u. buildGoldenUser config entry = Inr u \<and>
        User_Name u =
          TrimSpace (getAttribute (AttributeMap_Name (Attr config)) entry @ '' '' @
                     getAttribute (Surname (Attr config)) entry) \<and>
        leadingSpace (User_Name u) = 0 \<and> trailingSpace (User_Name u) = 0"
    by (simp add: buildGoldenUser_def Let_def TrimSpace_no_outer_space)
  moreover have "\<not> ToLower_is_dn name \<and>
      name \<notin> EntryAttribute_Name ` set (Entry_Attributes entry) \<longrightarrow>
      getAttribute name entry = []"
    by (simp add: getAttribute_def getAttribute_loop_absent)
  ultimately show ?thesis
    using buildGoldenUser_jane_doe buildGoldenUser_jane by blast
qed

theorem buildGoldenUser_display_name_witness:
  "\<not> ToLower_is_dn ''sn'' \<and> ''sn'' \<notin> EntryAttribute_Name ` set (Entry_Attributes jane) \<and>
   getAttribute ''sn'' jane = [] \<and>
   (\<exists>u. buildGoldenUser example_config jane = Inr u \<and> User_Name u = ''Jane'' \<and>
        trailingSpace (User_Name u) = 0)"
proof -
  have h: "\<not> ToLower_is_dn ''sn'' \<and> ''sn'' \<notin> EntryAttribute_Name ` set (Entry_Attributes jane)"
    by (simp add: ToLower_is_dn_def jane_def)
  have t: "trailingSpace ''Jane'' = 0"
    by code_simp
  from h t show ?thesis
    using buildGoldenUser_display_name [of example_config jane "''sn''"] by simp
qed

subsection \<open>Strings\<close>

lemma Contains_iff: "Contains s sub \<longleftrightarrow> (\<exists>pre post. s = pre @ sub @ post)"
proof (induction s)
  case Nil
  then show ?case by auto
next
  case (Cons c cs)
  show ?case
  proof
    assume "Contains (c # cs) sub"
    then consider "prefix sub (c # cs)" | "Contains cs sub" by auto
    then show "\<exists>pre post. c # cs = pre @ sub @ post"
    proof cases
      case 1
      then obtain post where "c # cs = sub @ post" by (auto simp: prefix_def)
      then have "c # cs = [] @ sub @ post" by simp
      then show ?thesis by blast
    next
      case 2
      with Cons.IH obtain pre post where "cs = pre @ sub @ post" by blast
      then have "c # cs = (c # pre) @ sub @ post" by simp
      then show ?thesis by blast
    qed
  next
    assume "\<exists>pre post. c # cs = pre @ sub @ post"
    then obtain pre post where eq: "c # cs = pre @ sub @ post" by blast
    show "Contains (c # cs) sub"
    proof (cases pre)
      case Nil
      with eq have "prefix sub (c # cs)" by (simp add: prefix_def)
      then show ?thesis by simp
    next
      case (Cons p pre')
      with eq have "cs = pre' @ sub @ post" by simp
      with Cons.IH have "Contains cs sub" by blast
      then show ?thesis by simp
    qed
  qed
qed

lemma Sprintf_from_no_percent:
  "CHR ''%'' \<notin> set post \<Longrightarrow> Sprintf_from fmt post a u = post @ Sprintf_extra a u"
  by (induction fmt post a u rule: Sprintf_from.induct) auto

lemma Sprintf_from_prefix:
  "CHR ''%'' \<notin> set pre \<Longrightarrow> rest \<noteq> [] \<Longrightarrow>
   Sprintf_from fmt (pre @ rest) a u = pre @ Sprintf_from fmt rest a u"
proof (induction pre)
  case Nil
  then show ?case by simp
next
  case (Cons c pre)
  from Cons.prems obtain d ds where ds: "pre @ rest = d # ds" by (cases "pre @ rest") auto
  from Cons.prems have "Sprintf_from fmt (pre @ rest) a u = pre @ Sprintf_from fmt rest a u"
    using Cons.IH by simp
  moreover from Cons.prems have "c \<noteq> CHR ''%''" by auto
  ultimately show ?case using ds by simp
qed

lemma Sprintf_placeholder_prefix:
  assumes "CHR ''%'' \<notin> set pre"
  shows "Sprintf fmt (pre @ ''%s'' @ post) a = pre @ a @ Sprintf_from fmt post a True"
proof -
  have "Sprintf_from fmt (''%s'' @ post) a False = a @ Sprintf_from fmt post a True"
    by simp
  with assms show ?thesis
    by (simp add: Sprintf_def Sprintf_from_prefix)
qed

lemma Sprintf_placeholder:
  assumes "CHR ''%'' \<notin> set pre" "CHR ''%'' \<notin> set post"
  shows "Sprintf fmt (pre @ ''%s'' @ post) a = pre @ a @ post"
  using Sprintf_placeholder_prefix [OF assms(1), of fmt post a]
    Sprintf_from_no_percent [OF assms(2), of fmt a True]
  by (simp add: Sprintf_extra_def)

text \<open>Two templates that contain \<open>%s\<close> and are not rendered by substitution.\<close>

lemma Sprintf_two_placeholders:
  "Sprintf fmt ''uid=%s,ou=%s'' a = ''uid='' @ a @ '',ou=%!s(MISSING)''"
  by (simp add: Sprintf_def Sprintf_extra_def)

lemma Sprintf_escaped_percent:
  "Sprintf fmt ''100%%s'' a = ''100%s%!(EXTRA string='' @ a @ '')''"
  by (simp add: Sprintf_def Sprintf_extra_def)

subsection \<open>Traces of the calls on the connection\<close>

lemma Connection_Bind_trace:
  "Connection server = Some conn \<Longrightarrow>
   snd (snd (Connection_Bind server username password st)) = snd st @ [BindCall username password]"
  by (simp add: Connection_Bind_def split: prod.splits)

lemma userBind_trace:
  "Connection server = Some conn \<Longrightarrow>
   snd (snd (userBind server path password st)) = snd st @ [BindCall path password]"
  using Connection_Bind_trace [of server conn path password st]
  by (auto simp: userBind_def split: prod.splits option.splits failure.splits)

lemma Connection_UnauthenticatedBind_trace:
  "Connection server = Some conn \<Longrightarrow>
   snd (snd (Connection_UnauthenticatedBind server username st)) =
     snd st @ [UnauthenticatedBindCall username]"
  by (simp add: Connection_UnauthenticatedBind_def split: prod.splits)

lemma Connection_Search_trace:
  "\<exists>evs. snd (snd (Connection_Search server req st)) = snd st @ evs \<and> list_all is_SearchCall evs"
  by (cases "Connection server")
     (auto simp: Connection_Search_def split: prod.splits sum.splits)

lemma users_loop_trace:
  "\<exists>evs. snd (snd (users_loop server logins bases result st)) = snd st @ evs \<and>
         list_all is_SearchCall evs"
proof (induction bases arbitrary: result st)
  case Nil
  then show ?case by simp
next
  case (Cons base bases)
  obtain r st1 where c: "Connection_Search server (getSearchRequest server base logins) st = (r, st1)"
    by (cases "Connection_Search server (getSearchRequest server base logins) st")
  from Connection_Search_trace [of server "getSearchRequest server base logins" st] c
  obtain evs1 where e1: "snd st1 = snd st @ evs1" "list_all is_SearchCall evs1" by auto
  show ?case
  proof (cases r)
    case (Inl f)
    with c e1 show ?thesis by auto
  next
    case (Inr res)
    show ?thesis
    proof (cases "length (Entries res) > 0")
      case True
      with c e1 Inr show ?thesis by auto
    next
      case False
      from Cons.IH [of "Some res" st1]
      obtain evs2 where e2: "snd (snd (users_loop server logins bases (Some res) st1)) = snd st1 @ evs2"
        "list_all is_SearchCall evs2" by blast
      with e1 have "snd (snd (users_loop server logins bases (Some res) st1)) = snd st @ (evs1 @ evs2)"
        "list_all is_SearchCall (evs1 @ evs2)" by simp_all
      with c Inr False show ?thesis by auto
    qed
  qed
qed

lemma users_trace:
  "\<exists>evs. snd (snd (users server logins st)) = snd st @ evs \<and> list_all is_SearchCall evs"
  using users_loop_trace [of server logins "SearchBaseDNs (Config server)" None st]
  by (auto simp: users_def split: prod.splits sum.splits option.splits)

lemma Users_fn_trace:
  "\<exists>evs. snd (snd (snd (Users_fn server logins previous current s))) = snd (snd s) @ evs \<and>
         list_all is_SearchCall evs"
proof (cases "slice_of logins previous current")
  case None
  then show ?thesis by (simp add: Users_fn_def)
next
  case (Some batch)
  with users_trace [of server batch "snd s"] show ?thesis
    by (auto simp: Users_fn_def split: prod.splits sum.splits)
qed

lemma getUsersIteration_loop_done:
  "\<not> i < iterations + 1 \<Longrightarrow> getUsersIteration_loop lenLogins iterations fn i s = (None, s)"
  by (subst getUsersIteration_loop.simps) simp

lemma getUsersIteration_loop_step:
  "i < iterations + 1 \<Longrightarrow>
   fn (UsersMaxRequest * (i - 1)) (min (i * UsersMaxRequest) lenLogins) s = (r, s') \<Longrightarrow>
   getUsersIteration_loop lenLogins iterations fn i s =
     (case r of Some err \<Rightarrow> (Some err, s')
      | None \<Rightarrow> getUsersIteration_loop lenLogins iterations fn (i + 1) s')"
  by (subst getUsersIteration_loop.simps) (simp add: Let_def)

lemma getUsersIteration_loop_trace:
  assumes step: "\<And>p c s. \<exists>evs. tr (snd (fn p c s)) = tr s @ evs \<and> list_all is_SearchCall evs"
  shows "\<exists>evs. tr (snd (getUsersIteration_loop n its fn i s)) = tr s @ evs \<and>
               list_all is_SearchCall evs"
  using step
proof (induction n its fn i s rule: getUsersIteration_loop.induct)
  case (1 lenLogins iterations fn i s)
  show ?case
  proof (cases "i < iterations + 1")
    case False
    then show ?thesis by (simp add: getUsersIteration_loop_done)
  next
    case True
    define previous where "previous = UsersMaxRequest * (i - 1)"
    define current where "current = min (i * UsersMaxRequest) lenLogins"
    obtain r s1 where f: "fn previous current s = (r, s1)" by (cases "fn previous current s")
    from "1.prems" [of previous current s] f
    obtain evs1 where e1: "tr s1 = tr s @ evs1" "list_all is_SearchCall evs1" by auto
    from True f have unfold:
      "getUsersIteration_loop lenLogins iterations fn i s =
         (case r of Some err \<Rightarrow> (Some err, s1)
          | None \<Rightarrow> getUsersIteration_loop lenLogins iterations fn (i + 1) s1)"
      unfolding previous_def current_def by (rule getUsersIteration_loop_step)
    show ?thesis
    proof (cases r)
      case (Some err)
      with e1 show ?thesis by (simp add: unfold)
    next
      case None
      from "1.IH" [OF True previous_def current_def f [symmetric] None] "1.prems"
      obtain evs2 where e2:
        "tr (snd (getUsersIteration_loop lenLogins iterations fn (i + 1) s1)) = tr s1 @ evs2"
        "list_all is_SearchCall evs2" by blast
      with e1 have
        "tr (snd (getUsersIteration_loop lenLogins iterations fn (i + 1) s1)) = tr s @ (evs1 @ evs2)"
        "list_all is_SearchCall (evs1 @ evs2)" by simp_all
      with None show ?thesis unfolding unfold by auto
    qed
  qed
qed

lemma Users_trace:
  "\<exists>evs. snd (snd (Users server logins st)) = snd st @ evs \<and> list_all is_SearchCall evs"
proof -
  have "\<exists>evs. (snd \<circ> snd) (snd (getUsersIteration_loop n its (Users_fn server logins) i s)) =
          (snd \<circ> snd) s @ evs \<and> list_all is_SearchCall evs" for n its i s
    by (rule getUsersIteration_loop_trace) (simp add: Users_fn_trace)
  from this [of "length logins" "nat \<lceil>real (length logins) / real UsersMaxRequest\<rceil>" 1 "([], st)"]
  have "\<exists>evs. snd (snd (snd (getUsersIteration logins (Users_fn server logins) ([], st)))) =
          snd st @ evs \<and> list_all is_SearchCall evs"
    by (simp add: getUsersIteration_def Let_def)
  then show ?thesis
    by (auto simp: Users_def split: prod.splits option.splits sum.splits)
qed

lemma Login_bind_trace:
  assumes "Connection server = Some conn"
  shows "snd (snd (Login_bind fmt server query st)) = snd st @
     (if shouldAdminBind server
      then [BindCall (BindDN (Config server)) (BindPassword (Config server))]
      else if shouldSingleBind server
      then [BindCall (singleBindDN fmt server (LoginData_Name query)) (Password query)]
      else [UnauthenticatedBindCall (BindDN (Config server))])"
  using assms
  by (simp add: Login_bind_def AdminBind_def UserBind_def userBind_trace
      Connection_UnauthenticatedBind_trace case_prod_unfold)

lemma Login_bind_flag:
  "snd (fst (Login_bind fmt server query st)) = (\<not> shouldAdminBind server \<and> shouldSingleBind server)"
  by (auto simp: Login_bind_def split: prod.splits)

text \<open>What \<open>Login\<close> adds to the trace after its first bind.\<close>

lemma Login_trace:
  assumes "Connection server = Some conn"
  shows "\<exists>searches verify.
     snd (snd (Login fmt server query st)) = snd (snd (Login_bind fmt server query st)) @ searches @ verify \<and>
     list_all is_SearchCall searches \<and>
     (verify = [] \<or>
      (\<exists>user. \<not> (\<not> shouldAdminBind server \<and> shouldSingleBind server) \<and>
         verify = [BindCall user (Password query)]))"
proof -
  obtain r b st1 where lb: "Login_bind fmt server query st = ((r, b), st1)"
    by (cases "Login_bind fmt server query st") auto
  from Login_bind_flag [of fmt server query st] lb
  have b: "b = (\<not> shouldAdminBind server \<and> shouldSingleBind server)" by simp
  show ?thesis
  proof (cases r)
    case (Some err)
    with lb show ?thesis by (simp add: Login_def)
  next
    case None
    obtain ur st2 where us: "Users server [LoginData_Name query] st1 = (ur, st2)"
      by (cases "Users server [LoginData_Name query] st1")
    from Users_trace [of server "[LoginData_Name query]" st1] us
    obtain searches where s: "snd st2 = snd st1 @ searches" "list_all is_SearchCall searches"
      by auto
    show ?thesis
    proof (cases ur)
      case (Inl err)
      with lb None us s show ?thesis by (auto simp: Login_def)
    next
      case (Inr found)
      show ?thesis
      proof (cases "length found = 0 \<or> b")
        case True
        with lb None us s Inr show ?thesis
          by (auto simp: Login_def validateGoldenUser_def Let_def)
      next
        case False
        define user where "user = found ! 0"
        from userBind_trace [OF assms, of "User_Name user" "Password query" st2]
        have "snd (snd (UserBind server (User_Name user) (Password query) st2)) =
                snd st2 @ [BindCall (User_Name user) (Password query)]"
          by (simp add: UserBind_def)
        then obtain vr st3 where ub:
          "UserBind server (User_Name user) (Password query) st2 = (vr, st3)"
          "snd st3 = snd st1 @ searches @ [BindCall (User_Name user) (Password query)]"
          using s by (cases "UserBind server (User_Name user) (Password query) st2") auto
        have res: "Login fmt server query st = ((case vr of Some err \<Rightarrow> Inl err | None \<Rightarrow> Inr user), st3)"
          using lb None us Inr False ub(1) user_def
          by (auto simp: Login_def validateGoldenUser_def Let_def split: option.splits)
        show ?thesis
          apply (rule exI [of _ searches])
          apply (rule exI [of _ "[BindCall (User_Name user) (Password query)]"])
          using res lb ub(2) s(2) False b by auto
      qed
    qed
  qed
qed

subsection \<open>Bind strategy\<close>

text \<open>
  C3. The strategy is a function of the configuration alone, and the three cases exclude
  each other: admin-bind exactly when the bind password is not empty; single-bind exactly
  when it is empty and the bind DN contains \<open>%s\<close>; the unauthenticated bind otherwise.
  The first call \<open>Login\<close> makes on the connection is the bind of the selected strategy,
  and the flag \<open>authAndBind\<close> is set exactly for single-bind.
\<close>

theorem bind_strategy_selection:
  assumes "Connection server = Some conn"
  shows "(case spec_strategy (Config server) of
            AdminBindStrategy \<Rightarrow>
              snd (snd (Login_bind fmt server query (w, tr))) =
                tr @ [BindCall (BindDN (Config server)) (BindPassword (Config server))]
          | SingleBindStrategy \<Rightarrow>
              snd (snd (Login_bind fmt server query (w, tr))) =
                tr @ [BindCall (singleBindDN fmt server (LoginData_Name query)) (Password query)]
          | UnauthenticatedBindStrategy \<Rightarrow>
              snd (snd (Login_bind fmt server query (w, tr))) =
                tr @ [UnauthenticatedBindCall (BindDN (Config server))]) \<and>
         (spec_strategy (Config server) = AdminBindStrategy \<longleftrightarrow> shouldAdminBind server) \<and>
         (spec_strategy (Config server) = SingleBindStrategy \<longleftrightarrow>
            \<not> shouldAdminBind server \<and> shouldSingleBind server) \<and>
         (spec_strategy (Config server) = UnauthenticatedBindStrategy \<longleftrightarrow>
            \<not> shouldAdminBind server \<and> \<not> shouldSingleBind server) \<and>
         (shouldAdminBind server \<longleftrightarrow> BindPassword (Config server) \<noteq> []) \<and>
         (shouldSingleBind server \<longleftrightarrow> (\<exists>pre post. BindDN (Config server) = pre @ ''%s'' @ post)) \<and>
         snd (fst (Login_bind fmt server query (w, tr))) =
           (spec_strategy (Config server) = SingleBindStrategy) \<and>
         (\<exists>rest. snd (snd (Login fmt server query (w, tr))) =
                   snd (snd (Login_bind fmt server query (w, tr))) @ rest)"
proof -
  have sel: "(spec_strategy (Config server) = AdminBindStrategy \<longleftrightarrow> shouldAdminBind server) \<and>
         (spec_strategy (Config server) = SingleBindStrategy \<longleftrightarrow>
            \<not> shouldAdminBind server \<and> shouldSingleBind server) \<and>
         (spec_strategy (Config server) = UnauthenticatedBindStrategy \<longleftrightarrow>
            \<not> shouldAdminBind server \<and> \<not> shouldSingleBind server)"
    by (simp add: spec_strategy_def shouldAdminBind_def shouldSingleBind_def)
  have defs: "(shouldAdminBind server \<longleftrightarrow> BindPassword (Config server) \<noteq> []) \<and>
         (shouldSingleBind server \<longleftrightarrow> (\<exists>pre post. BindDN (Config server) = pre @ ''%s'' @ post))"
    by (simp add: shouldAdminBind_def shouldSingleBind_def Contains_iff)
  have flag: "snd (fst (Login_bind fmt server query (w, tr))) =
           (spec_strategy (Config server) = SingleBindStrategy)"
    using sel by (simp add: Login_bind_flag)
  have first: "(case spec_strategy (Config server) of
            AdminBindStrategy \<Rightarrow>
              snd (snd (Login_bind fmt server query (w, tr))) =
                tr @ [BindCall (BindDN (Config server)) (BindPassword (Config server))]
          | SingleBindStrategy \<Rightarrow>
              snd (snd (Login_bind fmt server query (w, tr))) =
                tr @ [BindCall (singleBindDN fmt server (LoginData_Name query)) (Password query)]
          | UnauthenticatedBindStrategy \<Rightarrow>
              snd (snd (Login_bind fmt server query (w, tr))) =
                tr @ [UnauthenticatedBindCall (BindDN (Config server))])"
  proof (cases "spec_strategy (Config server)")
    case AdminBindStrategy
    with sel show ?thesis using Login_bind_trace [OF assms, of fmt query "(w, tr)"] by simp
  next
    case SingleBindStrategy
    with sel show ?thesis using Login_bind_trace [OF assms, of fmt query "(w, tr)"] by simp
  next
    case UnauthenticatedBindStrategy
    with sel show ?thesis using Login_bind_trace [OF assms, of fmt query "(w, tr)"] by simp
  qed
  have rest: "\<exists>rest. snd (snd (Login fmt server query (w, tr))) =
                   snd (snd (Login_bind fmt server query (w, tr))) @ rest"
    using Login_trace [OF assms, of fmt query "(w, tr)"] by blast
  from first sel defs flag rest show ?thesis by blast
qed

theorem bind_strategy_selection_witness:
  "Connection (single_bind_server open_directory) = Some open_directory \<and>
   spec_strategy (Config (single_bind_server open_directory)) = SingleBindStrategy \<and>
   snd (snd (Login_bind no_other_directives (single_bind_server open_directory) bob_login ((), []))) =
     [BindCall ''uid=bob,dc=example'' ''secret'']"
proof -
  have h: "Connection (single_bind_server open_directory) = Some open_directory"
    by (simp add: single_bind_server_def)
  have s: "spec_strategy (Config (single_bind_server open_directory)) = SingleBindStrategy"
    by code_simp
  have d: "singleBindDN no_other_directives (single_bind_server open_directory)
             (LoginData_Name bob_login) = ''uid=bob,dc=example''"
    by code_simp
  have p: "Password bob_login = ''secret''"
    by (simp add: bob_login_def)
  from bind_strategy_selection [OF h, of no_other_directives bob_login "()" "[]"] s d p h
  show ?thesis by simp
qed

subsection \<open>Single bind\<close>

lemma Login_single_bind_trace:
  assumes "BindPassword (Config server) = []"
    and "Contains (BindDN (Config server)) ''%s''"
    and "Connection server = Some conn"
  shows "\<exists>searches.
           snd (snd (Login fmt server query (w, tr))) =
             tr @ BindCall (Sprintf fmt (BindDN (Config server)) (LoginData_Name query))
                    (Password query) # searches \<and>
           list_all is_SearchCall searches"
proof -
  have a: "\<not> shouldAdminBind server" using assms(1) by (simp add: shouldAdminBind_def)
  have s: "shouldSingleBind server" using assms(2) by (simp add: shouldSingleBind_def)
  from Login_bind_trace [OF assms(3), of fmt query "(w, tr)"] a s
  have first: "snd (snd (Login_bind fmt server query (w, tr))) =
      tr @ [BindCall (Sprintf fmt (BindDN (Config server)) (LoginData_Name query)) (Password query)]"
    by (simp add: singleBindDN_def)
  from Login_trace [OF assms(3), of fmt query "(w, tr)"] a s
  obtain searches where "snd (snd (Login fmt server query (w, tr))) =
      snd (snd (Login_bind fmt server query (w, tr))) @ searches" and "list_all is_SearchCall searches"
    by auto
  with first show ?thesis by auto
qed

text \<open>
  C7. With no bind password and a bind DN that contains \<open>%s\<close>, \<open>Login\<close> makes exactly one
  bind call on the connection, whatever its outcome: the first call, with the supplied
  credential and with the DN that \<open>Sprintf\<close> makes of the bind DN and the login name.
  Every later call is a search; there is no second bind. When the bind DN has one \<open>%s\<close>
  and no other percent sign, that DN is the bind DN with the login name in the place of
  the placeholder.
\<close>

theorem single_bind_one_bind:
  assumes "BindPassword (Config server) = []"
    and "Contains (BindDN (Config server)) ''%s''"
    and "Connection server = Some conn"
  shows "\<not> shouldAdminBind server \<and> shouldSingleBind server \<and>
         (\<exists>searches.
            snd (snd (Login fmt server query (w, tr))) =
              tr @ BindCall (Sprintf fmt (BindDN (Config server)) (LoginData_Name query))
                     (Password query) # searches \<and>
            list_all is_SearchCall searches) \<and>
         filter is_bind (drop (length tr) (snd (snd (Login fmt server query (w, tr))))) =
           [BindCall (Sprintf fmt (BindDN (Config server)) (LoginData_Name query)) (Password query)] \<and>
         (BindDN (Config server) = pre @ ''%s'' @ post \<and>
          CHR ''%'' \<notin> set pre \<and> CHR ''%'' \<notin> set post \<longrightarrow>
            Sprintf fmt (BindDN (Config server)) (LoginData_Name query) =
              pre @ LoginData_Name query @ post)"
proof -
  have a: "\<not> shouldAdminBind server" using assms(1) by (simp add: shouldAdminBind_def)
  have s: "shouldSingleBind server" using assms(2) by (simp add: shouldSingleBind_def)
  from Login_single_bind_trace [OF assms, of fmt query w tr]
  obtain searches where eq: "snd (snd (Login fmt server query (w, tr))) =
      tr @ BindCall (Sprintf fmt (BindDN (Config server)) (LoginData_Name query))
             (Password query) # searches"
    and ss: "list_all is_SearchCall searches" by blast
  have "filter is_bind searches = []"
    using ss by (induction searches) (auto elim: is_SearchCall.elims)
  with eq have one: "filter is_bind (drop (length tr) (snd (snd (Login fmt server query (w, tr))))) =
      [BindCall (Sprintf fmt (BindDN (Config server)) (LoginData_Name query)) (Password query)]"
    by simp
  have sub: "BindDN (Config server) = pre @ ''%s'' @ post \<and>
          CHR ''%'' \<notin> set pre \<and> CHR ''%'' \<notin> set post \<longrightarrow>
            Sprintf fmt (BindDN (Config server)) (LoginData_Name query) =
              pre @ LoginData_Name query @ post"
    using Sprintf_placeholder [of pre post fmt "LoginData_Name query"] by auto
  from a s eq ss one sub show ?thesis by blast
qed

theorem single_bind_one_bind_witness:
  "BindPassword (Config (single_bind_server open_directory)) = [] \<and>
   Contains (BindDN (Config (single_bind_server open_directory))) ''%s'' \<and>
   Connection (single_bind_server open_directory) = Some open_directory \<and>
   BindDN (Config (single_bind_server open_directory)) = ''uid='' @ ''%s'' @ '',dc=example'' \<and>
   CHR ''%'' \<notin> set ''uid='' \<and> CHR ''%'' \<notin> set '',dc=example'' \<and>
   filter is_bind (snd (snd (Login no_other_directives (single_bind_server open_directory)
                               bob_login ((), [])))) =
     [BindCall ''uid=bob,dc=example'' ''secret'']"
proof -
  have h: "BindPassword (Config (single_bind_server open_directory)) = []"
    "Contains (BindDN (Config (single_bind_server open_directory))) ''%s''"
    "Connection (single_bind_server open_directory) = Some open_directory"
    by (simp_all add: single_bind_server_def)
  have g: "BindDN (Config (single_bind_server open_directory)) = ''uid='' @ ''%s'' @ '',dc=example''"
    "CHR ''%'' \<notin> set ''uid=''" "CHR ''%'' \<notin> set '',dc=example''"
    by (simp_all add: single_bind_server_def)
  note t = single_bind_one_bind [OF h, of no_other_directives bob_login "()" "[]"
      "''uid=''" "'',dc=example''"]
  from t g have dn: "Sprintf no_other_directives (BindDN (Config (single_bind_server open_directory)))
      (LoginData_Name bob_login) = ''uid='' @ LoginData_Name bob_login @ '',dc=example''"
    by blast
  from t have "filter is_bind (drop (length ([] :: event list))
      (snd (snd (Login no_other_directives (single_bind_server open_directory) bob_login ((), []))))) =
    [BindCall (Sprintf no_other_directives (BindDN (Config (single_bind_server open_directory)))
       (LoginData_Name bob_login)) (Password bob_login)]"
    by blast
  with dn h g show ?thesis
    by (simp add: bob_login_def)
qed

text \<open>
  The bind DN \<open>uid=%s,ou=%s\<close> contains \<open>%s\<close>, and with no bind password the one bind of
  \<open>Login\<close> is made as \<open>uid=bob,ou=%!s(MISSING)\<close>: neither the bind DN with the login name
  in the place of every placeholder nor with it in the place of the first one.
\<close>

theorem single_bind_one_bind_counterexample:
  "BindPassword (Config (single_bind_server_with ''uid=%s,ou=%s'')) = [] \<and>
   Contains (BindDN (Config (single_bind_server_with ''uid=%s,ou=%s''))) ''%s'' \<and>
   filter is_bind (snd (snd (Login no_other_directives (single_bind_server_with ''uid=%s,ou=%s'')
                               bob_login ((), [])))) =
     [BindCall ''uid=bob,ou=%!s(MISSING)'' ''secret''] \<and>
   ReplaceAll_placeholder ''uid=%s,ou=%s'' ''bob'' = ''uid=bob,ou=bob'' \<and>
   filter is_bind (snd (snd (Login no_other_directives (single_bind_server_with ''uid=%s,ou=%s'')
                               bob_login ((), [])))) \<noteq>
     [BindCall (ReplaceAll_placeholder ''uid=%s,ou=%s'' ''bob'') ''secret''] \<and>
   filter is_bind (snd (snd (Login no_other_directives (single_bind_server_with ''uid=%s,ou=%s'')
                               bob_login ((), [])))) \<noteq>
     [BindCall ''uid=bob,ou=%s'' ''secret'']"
  by code_simp

lemma getSearchRequest_search_concat:
  "getSearchRequest_search config logins search =
     search @ concat (map (\<lambda>login. ReplaceAll_placeholder (SearchFilter config) (EscapeFilter login)) logins)"
  by (induction logins arbitrary: search) (simp_all add: Let_def)




subsection \<open>The number of iterations\<close>

lemma iterations_div: "nat \<lceil>real n / real UsersMaxRequest\<rceil> = (n + 499) div 500"
proof -
  define q where "q = (n + 499) div 500"
  define r where "r = (n + 499) mod 500"
  have "n + 499 = 500 * q + r" by (simp add: q_def r_def)
  moreover have "r < 500" by (simp add: r_def)
  ultimately have nat_bounds: "n \<le> 500 * q" "500 * q < n + 500" by linarith+
  from nat_bounds(1) have "real n \<le> real (500 * q)" by (simp only: of_nat_le_iff)
  moreover from nat_bounds(2) have "real (500 * q) < real (n + 500)"
    by (simp only: of_nat_less_iff)
  ultimately have "real n \<le> 500 * real q" "500 * real q < real n + 500" by simp_all
  then have "real_of_int (int q) - 1 < real n / 500" "real n / 500 \<le> real_of_int (int q)"
    by (simp_all add: field_simps)
  then have "\<lceil>real n / 500\<rceil> = int q" by (rule ceiling_unique)
  then show ?thesis by (simp add: UsersMaxRequest_def q_def)
qed

subsection \<open>Search without a search base\<close>

lemma iterations_pos: "0 < n \<Longrightarrow> 0 < nat \<lceil>real n / real UsersMaxRequest\<rceil>"
  by (simp add: UsersMaxRequest_def)

lemma users_no_base:
  "SearchBaseDNs (Config server) = [] \<Longrightarrow>
   users server logins st = (Inl (Panic NilPointerDereference), st)"
  by (simp add: users_def)

lemma Users_no_base:
  assumes "SearchBaseDNs (Config server) = []" and "logins \<noteq> []"
  shows "Users server logins st = (Inl (Panic NilPointerDereference), st)"
proof -
  define n where "n = length logins"
  define its where "its = nat \<lceil>real n / real UsersMaxRequest\<rceil>"
  from assms(2) have "0 < n" by (simp add: n_def)
  then have its: "1 < its + 1" using iterations_pos [of n] by (simp add: its_def)
  have sl: "slice_of logins (UsersMaxRequest * (1 - 1)) (min (1 * UsersMaxRequest) n) =
              Some (take (min UsersMaxRequest n) logins)"
    by (simp add: slice_of_def n_def)
  have fn: "Users_fn server logins (UsersMaxRequest * (1 - 1)) (min (1 * UsersMaxRequest) n) ([], st) =
              (Some (Panic NilPointerDereference), ([], st))"
    unfolding Users_fn_def sl by (simp add: users_no_base [OF assms(1)])
  from getUsersIteration_loop_step
    [of 1 its "Users_fn server logins" n "([], st)" "Some (Panic NilPointerDereference)" "([], st)",
     OF its fn]
  have "getUsersIteration logins (Users_fn server logins) ([], st) =
          (Some (Panic NilPointerDereference), ([], st))"
    by (simp add: getUsersIteration_def n_def its_def Let_def)
  then show ?thesis by (simp add: Users_def)
qed

text \<open>
  C9. With an empty list of search bases the loop of \<open>users\<close> never assigns \<open>result\<close>,
  and \<open>result.Entries\<close> dereferences \<open>nil\<close>: \<open>users\<close> panics without a search, \<open>Users\<close>
  panics for every list of logins that is not empty, \<open>Login\<close> panics whenever its first
  bind succeeds, and \<open>Login\<close> never returns a user.
\<close>

theorem users_nil_dereference:
  assumes "SearchBaseDNs (Config server) = []"
  shows "users server logins st = (Inl (Panic NilPointerDereference), st) \<and>
         (logins \<noteq> [] \<longrightarrow> Users server logins st = (Inl (Panic NilPointerDereference), st)) \<and>
         (fst (fst (Login_bind fmt server query st)) = None \<longrightarrow>
            fst (Login fmt server query st) = Inl (Panic NilPointerDereference)) \<and>
         (\<forall>user. fst (Login fmt server query st) \<noteq> Inr user)"
proof -
  have u: "Users server [LoginData_Name query] st1 = (Inl (Panic NilPointerDereference), st1)" for st1
    by (rule Users_no_base [OF assms]) simp
  have l1: "fst (Login fmt server query st) = Inl (Panic NilPointerDereference)"
    if "fst (fst (Login_bind fmt server query st)) = None"
    using that u by (auto simp: Login_def split: prod.splits option.splits)
  have l2: "fst (Login fmt server query st) \<noteq> Inr user" for user
    using u by (auto simp: Login_def split: prod.splits option.splits)
  from users_no_base [OF assms] Users_no_base [OF assms] l1 l2 show ?thesis by blast
qed

theorem users_nil_dereference_witness:
  "SearchBaseDNs (Config \<lparr>Config = example_config\<lparr>SearchBaseDNs := []\<rparr>,
                          Connection = Some open_directory\<rparr>) = [] \<and>
   fst (fst (Login_bind no_other_directives \<lparr>Config = example_config\<lparr>SearchBaseDNs := []\<rparr>,
                         Connection = Some open_directory\<rparr> bob_login ((), []))) = None \<and>
   fst (Login no_other_directives \<lparr>Config = example_config\<lparr>SearchBaseDNs := []\<rparr>,
               Connection = Some open_directory\<rparr> bob_login ((), [])) =
     Inl (Panic NilPointerDereference) \<and>
   [''bob''] \<noteq> [] \<and>
   Users \<lparr>Config = example_config\<lparr>SearchBaseDNs := []\<rparr>,
               Connection = Some open_directory\<rparr> [''bob''] ((), []) =
     (Inl (Panic NilPointerDereference), ((), []))"
proof -
  have h: "SearchBaseDNs (Config \<lparr>Config = example_config\<lparr>SearchBaseDNs := []\<rparr>,
                          Connection = Some open_directory\<rparr>) = []"
    by simp
  have b: "fst (fst (Login_bind no_other_directives \<lparr>Config = example_config\<lparr>SearchBaseDNs := []\<rparr>,
                         Connection = Some open_directory\<rparr> bob_login ((), []))) = None"
    by code_simp
  from users_nil_dereference [OF h, of "[''bob'']" "((), [])" no_other_directives bob_login] b h
  show ?thesis
    by simp
qed

subsection \<open>Rejections of Login\<close>

lemma Login_user_not_found:
  "Login_bind fmt server query st = ((None, b), st1) \<Longrightarrow>
   Users server [LoginData_Name query] st1 = (Inr [], st2) \<Longrightarrow>
   Login fmt server query st = (Inl (Err ErrCouldNotFindUser), st2)"
  by (simp add: Login_def)

lemma userBind_invalid_credentials:
  "Connection server = Some conn \<Longrightarrow>
   conn_Bind conn path password (fst st) = (Some (LDAPError 49 msg), w') \<Longrightarrow>
   fst (userBind server path password st) = Some (Err ErrInvalidCredentials)"
  by (simp add: userBind_def Connection_Bind_def)

text \<open>
  C1. Against the example directory, with the administrator's bind configured: the login
  of a name that the search does not find is rejected with \<open>ErrCouldNotFindUser\<close>, the
  login of \<open>alice\<close> with a wrong password (result code 49 on the last bind) is rejected
  with \<open>ErrInvalidCredentials\<close>, and the two errors are different values.
\<close>

theorem Login_not_found_differs_from_invalid_credentials:
  "fst (Login fmt (admin_bind_server example_directory)
          \<lparr>LoginData_Name = ''nonexistent-user'', Password = ''anything''\<rparr> ((), [])) =
     Inl (Err ErrCouldNotFindUser) \<and>
   fst (Login fmt (admin_bind_server example_directory)
          \<lparr>LoginData_Name = ''alice'', Password = ''wrong-password''\<rparr> ((), [])) =
     Inl (Err ErrInvalidCredentials) \<and>
   ErrCouldNotFindUser \<noteq> ErrInvalidCredentials"
  by code_simp

lemma getUsersIteration_single: "getUsersIteration [x] fn s = fn 0 1 s"
proof -
  have its: "nat \<lceil>real (Suc 0) / real UsersMaxRequest\<rceil> = 1"
    using iterations_div [of "Suc 0"] by simp
  obtain r s' where f: "fn (UsersMaxRequest * (1 - 1)) (min (1 * UsersMaxRequest) 1) s = (r, s')"
    by (metis prod.exhaust)
  have "getUsersIteration_loop 1 1 fn 1 s = (r, s')"
  proof (cases r)
    case None
    have "getUsersIteration_loop 1 1 fn (1 + 1) s' = (None, s')"
      by (rule getUsersIteration_loop_done) simp
    with getUsersIteration_loop_step [of 1 1 fn 1 s r s', OF _ f] None show ?thesis by simp
  next
    case (Some e)
    with getUsersIteration_loop_step [of 1 1 fn 1 s r s', OF _ f] show ?thesis by simp
  qed
  moreover from f have "fn 0 1 s = (r, s')" by (simp add: UsersMaxRequest_def)
  ultimately show ?thesis using its by (simp add: getUsersIteration_def)
qed

lemma users_loop_searches:
  "users_loop server logins bases result st = (Inr res, st') \<Longrightarrow>
   (res = result \<and> st' = st) \<or> (res \<noteq> None \<and> length (snd st) < length (snd st'))"
proof (induction bases arbitrary: result st)
  case Nil
  then show ?case by simp
next
  case (Cons base bases)
  obtain c st1 where c: "Connection_Search server (getSearchRequest server base logins) st = (c, st1)"
    by (metis prod.exhaust)
  with Cons.prems obtain r where r: "c = Inr r" by (cases c) auto
  from c r have grow: "length (snd st1) = Suc (length (snd st))"
    by (auto simp: Connection_Search_def split: option.splits prod.splits sum.splits)
  show ?case
  proof (cases "length (Entries r) > 0")
    case True
    with Cons.prems c r grow show ?thesis by auto
  next
    case False
    with Cons.prems c r have "users_loop server logins bases (Some r) st1 = (Inr res, st')"
      by simp
    from Cons.IH [OF this] grow show ?thesis by auto
  qed
qed

lemma users_searches:
  "users server logins st = (Inr entries, st') \<Longrightarrow> length (snd st) < length (snd st')"
proof -
  assume u: "users server logins st = (Inr entries, st')"
  obtain l st1 where l: "users_loop server logins (SearchBaseDNs (Config server)) None st = (l, st1)"
    by (metis prod.exhaust)
  with u obtain r where r: "l = Inr (Some r)" "st1 = st'"
    by (auto simp: users_def split: sum.splits option.splits)
  with users_loop_searches [of server logins "SearchBaseDNs (Config server)" None st "Some r" st'] l
  show ?thesis by auto
qed

lemma Users_single_searches:
  assumes "Users server [login] st = (Inr found, st')" and "found \<noteq> []"
  shows "length (snd st) < length (snd st')"
proof -
  obtain r entries st1 where f: "Users_fn server [login] 0 1 ([], st) = (r, (entries, st1))"
    by (metis prod.exhaust)
  with assms have r: "r = None" "st1 = st'"
    by (cases r; simp add: Users_def getUsersIteration_single split: if_splits sum.splits)+
  obtain u st2 where u: "users server [login] st = (u, st2)" by (metis prod.exhaust)
  with f r obtain es where "u = Inr es" "st2 = st'"
    by (cases u) (auto simp: Users_fn_def slice_of_def)
  with u users_searches show ?thesis by blast
qed

text \<open>
  A login that succeeds with the administrator's bind: the administrator's bind, at least
  one search, and one bind with the \<open>Name\<close> of the user returned and the password
  supplied.
\<close>

lemma Login_admin_bind_trace:
  assumes "shouldAdminBind server" and "Connection server = Some conn"
    and "Login fmt server query (w, tr) = (Inr user, (w', tr'))"
  shows "\<exists>searches. tr' =
           tr @ [BindCall (BindDN (Config server)) (BindPassword (Config server))] @ searches @
           [BindCall (User_Name user) (Password query)] \<and>
         searches \<noteq> [] \<and> list_all is_SearchCall searches"
proof -
  obtain r b st1 where lb: "Login_bind fmt server query (w, tr) = ((r, b), st1)"
    by (metis prod.exhaust)
  from Login_bind_trace [OF assms(2), of fmt query "(w, tr)"] assms(1) lb
  have t1: "snd st1 = tr @ [BindCall (BindDN (Config server)) (BindPassword (Config server))]"
    by simp
  from Login_bind_flag [of fmt server query "(w, tr)"] assms(1) lb have b: "\<not> b" by simp
  from assms(3) lb have r: "r = None" by (cases r) (simp_all add: Login_def)
  obtain ur st2 where us: "Users server [LoginData_Name query] st1 = (ur, st2)"
    by (metis prod.exhaust)
  from Users_trace [of server "[LoginData_Name query]" st1] us
  obtain searches where s: "snd st2 = snd st1 @ searches" "list_all is_SearchCall searches"
    by auto
  from assms(3) lb r us obtain found where f: "ur = Inr found" "found \<noteq> []"
    by (cases ur) (auto simp: Login_def split: if_splits)
  from assms(3) lb r us f b have u: "user = found ! 0"
    and ub: "UserBind server (User_Name (found ! 0)) (Password query) st2 = (None, (w', tr'))"
    by (auto simp: Login_def validateGoldenUser_def Let_def split: prod.splits option.splits)
  from userBind_trace [OF assms(2), of "User_Name (found ! 0)" "Password query" st2] ub
  have t3: "tr' = snd st2 @ [BindCall (User_Name (found ! 0)) (Password query)]"
    by (simp add: UserBind_def)
  have "searches \<noteq> []"
  proof
    assume "searches = []"
    with s have "snd st2 = snd st1" by simp
    moreover from Users_single_searches [of server "LoginData_Name query" st1 found st2] us f
    have "length (snd st1) < length (snd st2)" by simp
    ultimately show False by simp
  qed
  with t1 s t3 u show ?thesis by auto
qed

text \<open>
  C2. With the administrator's bind configured and a directory that accepts every bind,
  the login of \<open>carol\<close> succeeds after the administrator's bind, one search and one more
  bind with the supplied password; the DN of that bind is the display name \<open>Carol\<close> that
  \<open>buildGoldenUser\<close> put in the user's \<open>Name\<close>, not the DN of the entry found. Against
  the example directory, which accepts \<open>alice\<close>'s DN with her password, the login of
  \<open>alice\<close> with her password is rejected, the bind being made as \<open>Alice\<close>.
\<close>

theorem Login_verifies_with_display_name:
  "Login fmt (admin_bind_server open_directory) carol_login ((), []) =
     (Inr \<lparr>AuthModule = AuthModuleLDAP, User_Name = ''Carol'', User_Email = ''carol@example.com''\<rparr>,
      (),
      [BindCall ''cn=admin,dc=example'' ''adminpw'',
       SearchCall \<lparr>BaseDN = ''dc=example'', Scope = ScopeWholeSubtree,
                   DerefAliases = NeverDerefAliases,
                   SearchRequest_Attributes = [''uid'', ''sn'', ''mail'', ''givenName''],
                   Filter = ''(|(uid=carol))''\<rparr>,
       BindCall ''Carol'' ''secret'']) \<and>
   DN carol = ''uid=carol,dc=example'' \<and>
   DN carol \<noteq> ''Carol'' \<and>
   fst (conn_Bind example_directory (DN alice) ''alice-password'' ()) = None \<and>
   Login fmt (admin_bind_server example_directory)
     \<lparr>LoginData_Name = ''alice'', Password = ''alice-password''\<rparr> ((), []) =
     (Inl (Err ErrInvalidCredentials),
      (),
      [BindCall ''cn=admin,dc=example'' ''adminpw'',
       SearchCall \<lparr>BaseDN = ''dc=example'', Scope = ScopeWholeSubtree,
                   DerefAliases = NeverDerefAliases,
                   SearchRequest_Attributes = [''uid'', ''sn'', ''mail'', ''givenName''],
                   Filter = ''(|(uid=alice))''\<rparr>,
       BindCall ''Alice'' ''alice-password''])"
  by code_simp

subsection \<open>Batches\<close>

















subsection \<open>Search requests\<close>

lemma appendIfNotEmpty_filter:
  "appendIfNotEmpty acc vs = acc @ filter (\<lambda>v. v \<noteq> []) vs"
  by (induction vs arbitrary: acc) simp_all

lemma hex_nth: "k < 16 \<Longrightarrow> hexval (hex ! k) = k \<and> \<not> filter_metacharacter (hex ! k)"
proof -
  have "list_all (\<lambda>k. hexval (hex ! k) = k \<and> \<not> filter_metacharacter (hex ! k)) [0..<16]"
    by code_simp
  then show "k < 16 \<Longrightarrow> hexval (hex ! k) = k \<and> \<not> filter_metacharacter (hex ! k)"
    by (simp add: list_all_iff)
qed

lemma of_char_div_16: "(of_char c :: nat) div 16 < 16"
proof -
  have "(of_char c :: nat) < 16 * 16" using nat_of_char_less_256 [of c] by simp
  then show ?thesis by (rule less_mult_imp_div_less)
qed

lemma escapeByte_no_metacharacter: "filter filter_metacharacter (escapeByte c) = []"
proof (cases "mustEscape c")
  case True
  have "\<not> filter_metacharacter backslash"
    by (simp add: filter_metacharacter_def backslash_def)
  with True hex_nth [OF of_char_div_16 [of c]] hex_nth [of "(of_char c :: nat) mod 16"]
  show ?thesis by (simp add: escapeByte_def)
next
  case False
  then have "\<not> filter_metacharacter c"
    by (auto simp: mustEscape_def filter_metacharacter_def)
  with False show ?thesis by (simp add: escapeByte_def)
qed

lemma EscapeFilter_no_metacharacter: "filter filter_metacharacter (EscapeFilter login) = []"
  by (induction login) (simp_all add: EscapeFilter_def escapeByte_no_metacharacter)

lemma UnescapeFilter_escapeByte:
  "UnescapeFilter (escapeByte c @ rest) = c # UnescapeFilter rest"
proof (cases "mustEscape c")
  case True
  have "16 * ((of_char c :: nat) div 16) + (of_char c :: nat) mod 16 = of_char c" by simp
  with True hex_nth [OF of_char_div_16 [of c]] hex_nth [of "(of_char c :: nat) mod 16"]
  show ?thesis by (simp add: escapeByte_def)
next
  case False
  then have "c \<noteq> backslash" by (auto simp: mustEscape_def)
  with False show ?thesis by (simp add: escapeByte_def)
qed

lemma UnescapeFilter_EscapeFilter: "UnescapeFilter (EscapeFilter login) = login"
  by (induction login) (simp_all add: EscapeFilter_def UnescapeFilter_escapeByte)

lemma filter_ReplaceAll_placeholder:
  "filter P new = [] \<Longrightarrow> \<not> P CHR ''%'' \<Longrightarrow> \<not> P CHR ''s'' \<Longrightarrow>
   filter P (ReplaceAll_placeholder template new) = filter P template"
  by (induction template new rule: ReplaceAll_placeholder.induct) auto

lemma concat_map_const: "concat (map (\<lambda>x. ys) xs) = concat (replicate (length xs) ys)"
  by (induction xs) simp_all

lemma Filter_skeleton:
  "filter filter_metacharacter (Filter (getSearchRequest server base logins)) =
     ''('' @ concat (replicate (length logins)
                     (filter filter_metacharacter (SearchFilter (Config server)))) @ '')''"
proof -
  have m: "\<not> filter_metacharacter CHR ''%''" "\<not> filter_metacharacter CHR ''s''"
    "\<not> filter_metacharacter CHR ''|''" "filter_metacharacter CHR ''(''" "filter_metacharacter CHR '')''"
    by (simp_all add: filter_metacharacter_def)
  have "filter filter_metacharacter
          (ReplaceAll_placeholder (SearchFilter (Config server)) (EscapeFilter login)) =
        filter filter_metacharacter (SearchFilter (Config server))" for login
    by (rule filter_ReplaceAll_placeholder) (simp_all add: EscapeFilter_no_metacharacter m)
  then show ?thesis
    by (simp add: getSearchRequest_def Let_def getSearchRequest_search_concat m filter_concat
        comp_def concat_map_const)
qed


lemma Filter_injection_example:
  "Filter (getSearchRequest (admin_bind_server open_directory) ''dc=example'' [''a*(b)'']) =
     ''(|(uid=a'' @ [backslash] @ ''2a'' @ [backslash] @ ''28b'' @ [backslash] @ ''29))''"
  by code_simp

text \<open>
  C5. The search request for a base and a batch of logins has that base, the whole
  subtree as scope and no dereferencing of aliases; its attributes are the configured
  attribute names that are not empty (user name, surname, email, name, membership, and
  the user attribute of the group filter); its filter is \<open>(|\<close>, then for each login the
  filter template with every \<open>%s\<close> replaced by the escaped login, then \<open>)\<close>. An escaped
  login contains no parenthesis, asterisk or NUL and decodes to the login, so the
  parentheses and asterisks of the filter are those of the template, once per login,
  whatever the logins contain.
\<close>

theorem getSearchRequest_shape:
  "BaseDN (getSearchRequest server base logins) = base \<and>
   Scope (getSearchRequest server base logins) = ScopeWholeSubtree \<and>
   DerefAliases (getSearchRequest server base logins) = NeverDerefAliases \<and>
   SearchRequest_Attributes (getSearchRequest server base logins) =
     filter (\<lambda>v. v \<noteq> [])
       [Username (Attr (Config server)), Surname (Attr (Config server)),
        AttributeMap_Email (Attr (Config server)), AttributeMap_Name (Attr (Config server)),
        MemberOf (Attr (Config server)), GroupSearchFilterUserAttribute (Config server)] \<and>
   Filter (getSearchRequest server base logins) =
     ''(|'' @
     concat (map (\<lambda>login. ReplaceAll_placeholder (SearchFilter (Config server)) (EscapeFilter login))
       logins) @ '')'' \<and>
   filter filter_metacharacter (EscapeFilter login) = [] \<and>
   UnescapeFilter (EscapeFilter login) = login \<and>
   filter filter_metacharacter (Filter (getSearchRequest server base logins)) =
     ''('' @ concat (replicate (length logins)
                     (filter filter_metacharacter (SearchFilter (Config server)))) @ '')'' \<and>
   Filter (getSearchRequest (admin_bind_server open_directory) ''dc=example'' [''a*(b)'']) =
     ''(|(uid=a'' @ [backslash] @ ''2a'' @ [backslash] @ ''28b'' @ [backslash] @ ''29))''"
proof -
  have "SearchRequest_Attributes (getSearchRequest server base logins) =
     filter (\<lambda>v. v \<noteq> [])
       [Username (Attr (Config server)), Surname (Attr (Config server)),
        AttributeMap_Email (Attr (Config server)), AttributeMap_Name (Attr (Config server)),
        MemberOf (Attr (Config server)), GroupSearchFilterUserAttribute (Config server)]"
    unfolding getSearchRequest_def Let_def appendIfNotEmpty_filter by simp
  moreover have "Filter (getSearchRequest server base logins) =
     ''(|'' @
     concat (map (\<lambda>login. ReplaceAll_placeholder (SearchFilter (Config server)) (EscapeFilter login))
       logins) @ '')''"
    by (simp add: getSearchRequest_def Let_def getSearchRequest_search_concat)
  moreover have "BaseDN (getSearchRequest server base logins) = base"
    "Scope (getSearchRequest server base logins) = ScopeWholeSubtree"
    "DerefAliases (getSearchRequest server base logins) = NeverDerefAliases"
    by (simp_all add: getSearchRequest_def Let_def)
  ultimately show ?thesis
    using EscapeFilter_no_metacharacter [of login] UnescapeFilter_EscapeFilter [of login]
      Filter_skeleton [of server base logins] Filter_injection_example
    by blast
qed

subsection \<open>Dial\<close>









end
